theory Spec2Isabelle
  imports Complex_Main "HOL-Library.AList"
begin

section \<open>ECMAScript strings\<close>

text \<open>
  A string is a list of characters; a character of HOL stands for the code unit with
  the same number (0 to 255).  \<open>String.prototype.trim\<close> removes white space and line
  terminators from both ends; the ones in this range are TAB, LF, VT, FF, CR, SP and
  NBSP.  A string is falsy exactly when it is empty.
\<close>

definition isWhiteSpace :: "char \<Rightarrow> bool" where
  "isWhiteSpace c =
     (c = CHR 0x09 \<or> c = CHR 0x0A \<or> c = CHR 0x0B \<or> c = CHR 0x0C \<or> c = CHR 0x0D \<or>
      c = CHR 0x20 \<or> c = CHR 0xA0)"

definition trim :: "string \<Rightarrow> string" where
  "trim s = rev (dropWhile isWhiteSpace (rev (dropWhile isWhiteSpace s)))"

text \<open>The decimal numeral of a number, as a template literal prints it.\<close>

fun decimal :: "nat \<Rightarrow> string" where
  "decimal n =
     (if n < 10 then [''0123456789'' ! n]
      else decimal (n div 10) @ [''0123456789'' ! (n mod 10)])"

section \<open>types/chat.ts\<close>

record Source =
  technology :: string
  file_path :: string
  section_title :: string
  category :: string
  score :: rat
  content_preview :: string
  full_content :: string

datatype Role = User | Assistant | System

text \<open>
  \<open>Message.sources\<close> is an optional field: \<open>None\<close> is the absent field.  The field
  \<open>id\<close> is written \<open>id_msg\<close>, and the \<open>sources\<close> of a \<open>ChatResponse\<close>
  \<open>sources_resp\<close>.
\<close>

record Message =
  id_msg :: string
  role :: Role
  content :: string
  sources :: "Source list option"

record ChatResponse =
  conversation_id :: string
  response :: string
  sources_resp :: "Source list"

text \<open>
  The two optional filter lists that \<open>append\<close>, \<open>reload\<close> and \<open>handleSubmit\<close> take as
  \<open>options\<close> and that \<open>UseChatOptions.body\<close> carries.
\<close>

record filter_options =
  technologies :: "string list option"
  categories :: "string list option"

section \<open>hooks/useChat.ts: the state of the hook\<close>

text \<open>
  What the body of the request is, as \<open>append\<close> builds it.
\<close>

record request_body =
  message_req :: string
  conversation_id_req :: "string option"
  technologies_req :: "string list"
  categories_req :: "string list"

datatype js_error = AbortError | SyntaxError | TypeError | Error string

text \<open>
  How the \<open>fetch\<close> of \<open>append\<close> and the reading of its body end:
  \<^item> \<open>Rejected e\<close>: the promise of \<open>fetch\<close> is rejected (the signal was aborted, or the
    network failed);
  \<^item> \<open>BadJson\<close>: \<open>response.json()\<close> throws;
  \<^item> \<open>ErrorResponse status e\<close>: \<open>response.ok\<close> is false and the body is an object whose
    field \<open>error\<close> is \<open>e\<close> (\<open>None\<close> when it is absent);
  \<^item> \<open>OkResponse data\<close>: \<open>response.ok\<close> is true and the body is the \<open>ChatResponse\<close> that
    the annotation \<open>const data: ChatResponse\<close> declares.
\<close>

datatype fetch_result =
    Rejected js_error
  | BadJson
  | ErrorResponse nat "string option"
  | OkResponse ChatResponse

text \<open>What an \<open>async\<close> function of type \<open>Promise<string | null | undefined>\<close> resolves to.\<close>

datatype return_value = ReturnNull | ReturnUndefined | ReturnString string

text \<open>
  The state of one \<open>useChat\<close>: the four \<open>useState\<close> cells, the two refs, every
  \<open>AbortController\<close> allocated so far (\<open>aborted ! c\<close> is \<open>signal.aborted\<close> of controller
  \<open>c\<close>; \<open>abortControllerRef\<close> holds the number of the current one), the requests
  whose \<open>fetch\<close> has been issued and has not settled yet (each with the number of
  the controller whose signal it was given), and the paths given to \<open>router.push\<close>.
\<close>

record chat_state =
  messages :: "Message list"
  input :: string
  isLoading :: bool
  error :: "js_error option"
  aborted :: "bool list"
  abortControllerRef :: "nat option"
  conversationIdRef :: "string option"
  pending :: "(nat \<times> request_body) list"
  pushed :: "string list"

text \<open>
  The first render with its effect: the state cells hold their initial values and the
  effect has stored a fresh controller in the ref.
\<close>

definition useChat :: "string option \<Rightarrow> Message list \<Rightarrow> chat_state" where
  "useChat initialId initialMessages =
     \<lparr> messages = initialMessages, input = [], isLoading = False, error = None,
       aborted = [False], abortControllerRef = Some 0, conversationIdRef = initialId,
       pending = [], pushed = [] \<rparr>"

definition updateConversationId :: "string \<Rightarrow> chat_state \<Rightarrow> chat_state" where
  "updateConversationId newId st =
     (if Some newId \<noteq> conversationIdRef st
      then st\<lparr> conversationIdRef := Some newId, pushed := pushed st @ [''/chat/'' @ newId] \<rparr>
      else st)"

text \<open>\<open>abortControllerRef.current.abort()\<close>, guarded by \<open>if (abortControllerRef.current)\<close>.\<close>

definition abort_current :: "chat_state \<Rightarrow> chat_state" where
  "abort_current st =
     (case abortControllerRef st of
        None \<Rightarrow> st
      | Some c \<Rightarrow> st\<lparr> aborted := (aborted st)[c := True] \<rparr>)"

text \<open>\<open>a || b || []\<close> on optional arrays: an array, even an empty one, is truthy.\<close>

definition or_else :: "string list option \<Rightarrow> string list option \<Rightarrow> string list" where
  "or_else a b = (case a of Some xs \<Rightarrow> xs | None \<Rightarrow> (case b of Some ys \<Rightarrow> ys | None \<Rightarrow> []))"

definition userMessage :: "string \<Rightarrow> string \<Rightarrow> Message" where
  "userMessage uuid c = \<lparr> id_msg = uuid, role = User, content = trim c, sources = Some [] \<rparr>"

definition assistantMessage :: "string \<Rightarrow> ChatResponse \<Rightarrow> Message" where
  "assistantMessage uuid data =
     \<lparr> id_msg = uuid, role = Assistant, content = response data,
       sources = Some (sources_resp data) \<rparr>"

text \<open>
  \<open>append\<close> up to its \<open>await fetch(...)\<close>, for a content that is not blank: the
  current controller is aborted, a new one is allocated and stored in the ref,
  \<open>isLoading\<close> and \<open>error\<close> are set, the user message is pushed and the request is
  issued with the signal of the new controller.  \<open>opts\<close> are the \<open>options\<close> of the
  call, \<open>body\<close> the \<open>body\<close> of the hook's options and \<open>uuid\<close> the value of \<open>uuidv4()\<close>.
\<close>

definition append_begin ::
  "filter_options \<Rightarrow> string \<Rightarrow> filter_options \<Rightarrow> string \<Rightarrow> chat_state \<Rightarrow> chat_state" where
  "append_begin body c opts uuid st =
     (let st1 = abort_current st;
          ctl = length (aborted st1);
          requestBody = \<lparr> message_req = trim c,
                          conversation_id_req = conversationIdRef st1,
                          technologies_req = or_else (technologies opts) (technologies body),
                          categories_req = or_else (categories opts) (categories body) \<rparr>
      in st1\<lparr> aborted := aborted st1 @ [False],
              abortControllerRef := Some ctl,
              isLoading := True,
              error := None,
              messages := messages st1 @ [userMessage uuid c],
              pending := pending st1 @ [(ctl, requestBody)] \<rparr>)"

text \<open>The error that the \<open>try\<close> block throws, if it throws.\<close>

definition thrown :: "fetch_result \<Rightarrow> js_error option" where
  "thrown r =
     (case r of
        Rejected e \<Rightarrow> Some e
      | BadJson \<Rightarrow> Some SyntaxError
      | ErrorResponse st e \<Rightarrow>
          Some (Error (case e of
                         Some m \<Rightarrow> if m \<noteq> [] then m else ''HTTP error! status: '' @ decimal st
                       | None \<Rightarrow> ''HTTP error! status: '' @ decimal st))
      | OkResponse data \<Rightarrow> None)"

text \<open>
  \<open>append\<close> from the settling of its \<open>fetch\<close> on: the rest of the \<open>try\<close> block, the
  \<open>catch\<close> and the \<open>finally\<close>.  The callbacks \<open>onResponse\<close>, \<open>onFinish\<close> and \<open>onError\<close> are
  the ones \<open>Chat\<close> passes: they show a toast or refresh the router, return at once
  and leave the state of the hook alone.
\<close>

definition append_settle :: "fetch_result \<Rightarrow> string \<Rightarrow> chat_state \<Rightarrow> return_value \<times> chat_state" where
  "append_settle r uuid st =
     (case r of
        OkResponse data \<Rightarrow>
          (let st1 = (if conversation_id data \<noteq> []
                      then updateConversationId (conversation_id data) st else st);
               st2 = st1\<lparr> messages := messages st1 @ [assistantMessage uuid data] \<rparr>
           in (ReturnString (conversation_id data), st2\<lparr> isLoading := False \<rparr>))
      | _ \<Rightarrow> (ReturnUndefined, st\<lparr> error := thrown r, isLoading := False \<rparr>))"

text \<open>The request that \<open>append_begin\<close> has just issued leaves the pending ones when it settles.\<close>

definition settled :: "nat \<Rightarrow> chat_state \<Rightarrow> chat_state" where
  "settled ctl st = st\<lparr> pending := filter (\<lambda>p. fst p \<noteq> ctl) (pending st) \<rparr>"

text \<open>
  One whole call of \<open>append\<close> during which nothing else runs: \<open>r\<close> is how its request
  ends, \<open>uuid1\<close> and \<open>uuid2\<close> are the two values of \<open>uuidv4()\<close>.
\<close>

definition append_chat ::
  "filter_options \<Rightarrow> string \<Rightarrow> filter_options \<Rightarrow> string \<Rightarrow> string \<Rightarrow> fetch_result \<Rightarrow>
   chat_state \<Rightarrow> return_value \<times> chat_state" where
  "append_chat body c opts uuid1 uuid2 r st =
     (if trim c = [] then (ReturnNull, st)
      else (let st1 = append_begin body c opts uuid1 st
            in append_settle r uuid2 (settled (length (aborted st1) - 1) st1)))"

definition stop :: "chat_state \<Rightarrow> chat_state" where
  "stop st =
     (case abortControllerRef st of
        None \<Rightarrow> st
      | Some c \<Rightarrow> st\<lparr> aborted := (aborted st)[c := True], isLoading := False \<rparr>)"

text \<open>
  \<open>Array.prototype.reduceRight\<close> with an initial value: the callback is given the
  accumulator, the element and its index, from the last element to the first.
\<close>

definition reduceRight :: "('b \<Rightarrow> 'a \<Rightarrow> nat \<Rightarrow> 'b) \<Rightarrow> 'b \<Rightarrow> 'a list \<Rightarrow> 'b" where
  "reduceRight f init xs = fold (\<lambda>(i, x) acc. f acc x i) (rev (zip [0..<length xs] xs)) init"

definition lastUserMessageIndex :: "Message list \<Rightarrow> int" where
  "lastUserMessageIndex ms =
     reduceRight (\<lambda>acc m i. if acc = - 1 \<and> role m = User then int i else acc) (- 1) ms"

text \<open>
  One whole call of \<open>reload\<close> during which nothing else runs.  \<open>setMessages(newMessages)\<close>
  comes before the functional update of \<open>append\<close>, which therefore pushes onto
  \<open>newMessages\<close>.
\<close>

definition reload ::
  "filter_options \<Rightarrow> filter_options \<Rightarrow> string \<Rightarrow> string \<Rightarrow> fetch_result \<Rightarrow>
   chat_state \<Rightarrow> return_value \<times> chat_state" where
  "reload body opts uuid1 uuid2 r st =
     (if length (messages st) = 0 then (ReturnNull, st)
      else (let i = lastUserMessageIndex (messages st)
            in if i = - 1 then (ReturnNull, st)
               else (let newMessages = take (nat (i + 1)) (messages st);
                         lastUserMessage = messages st ! nat i
                     in append_chat body (content lastUserMessage) opts uuid1 uuid2 r
                          (st\<lparr> messages := newMessages \<rparr>))))"

text \<open>No filter given: the \<open>options\<close> argument left out, or a \<open>body\<close> without filters.\<close>

definition no_filters :: filter_options where
  "no_filters = \<lparr> technologies = None, categories = None \<rparr>"

section \<open>route.ts: the POST route of the chat\<close>

text \<open>
  A value of JavaScript as \<open>JSON.parse\<close> yields it (\<open>request.json()\<close>,
  \<open>response.json()\<close>).  A number is an IEEE double: \<open>double\<close> stands for the finite
  doubles other than zero, and nothing is said about them but that they are values;
  \<open>JSON.parse\<close> yields an infinity for a numeral beyond the range, and never a NaN.
  An object lists its own properties in order, each key once.
\<close>

typedecl double

datatype number = Zero | MinusZero | Nonzero double | PlusInfinity | MinusInfinity

















text \<open>Values that the examples below use.\<close>

definition qdrant_source :: Source where
  "qdrant_source =
     \<lparr> technology = ''qdrant'', file_path = ''documentation/guides/configuration.md'',
       section_title = ''Configuration'', category = ''guides'', score = 7 / 8,
       content_preview = ''To change or correct'', full_content = ''To change or correct Qdrant'' \<rparr>"

definition two_turns :: "Message list" where
  "two_turns =
     [\<lparr> id_msg = ''m1'', role = User, content = ''what is a shard?'', sources = Some [] \<rparr>,
      \<lparr> id_msg = ''m2'', role = Assistant, content = ''A part of a collection.'', sources = Some [] \<rparr>]"

section \<open>components/custom/chat.tsx and chat-input.tsx: the callers of the hook\<close>













text \<open>
  The two kinds of state of the hook under \<open>Chat\<close>: no request pending and nothing
  loading; or loading, with exactly one request pending, whose signal is the one of
  the current controller and is not aborted.
\<close>

definition idle :: "chat_state \<Rightarrow> bool" where
  "idle st \<longleftrightarrow> pending st = [] \<and> \<not> isLoading st"

definition awaiting :: "chat_state \<Rightarrow> bool" where
  "awaiting st \<longleftrightarrow>
     isLoading st \<and>
     (\<exists>p. pending st = [p] \<and> fst p < length (aborted st) \<and> \<not> aborted st ! fst p \<and>
          abortControllerRef st = Some (fst p))"



section \<open>The ingestion pipeline of the backend\<close>

text \<open>
  The backend (\<open>ragdocs_api\<close>: \<open>file_tracker.py\<close>, \<open>markdown_processor.py\<close>,
  \<open>rag_system.py\<close>) is not among the sources.  Every definition of this section is
  modelled from the specification, sections 3, 4.1, 4.2, 4.3 and 7.
\<close>

text \<open>Modelled from the spec: the identities of section 3. A document is identified by its
  path and technology tag, a chunk by the document and the ordinal of its section.\<close>

type_synonym doc_key = "string \<times> string"
type_synonym chunk_key = "doc_key \<times> nat"
type_synonym hash = string

text \<open>Modelled from the spec: \<open>SourceDocument\<close> of section 3; its content hash
  is the hash function applied to the raw content.\<close>

record SourceDocument =
  doc_path :: string
  doc_technology :: string
  raw_content :: string
  last_modified :: nat
  doc_category :: string

text \<open>Modelled from the spec: the identity of a document (section 3): its path and its
  technology tag.\<close>

definition doc_id :: "SourceDocument \<Rightarrow> doc_key" where
  "doc_id d = (doc_path d, doc_technology d)"

text \<open>Modelled from the spec: \<open>Chunk\<close> of section 3; the back-reference to the
  document is the first component of the id.\<close>

record Chunk =
  chunk_id :: chunk_key
  chunk_text :: string
  chunk_title :: string
  chunk_technology :: string
  chunk_category :: string
  chunk_position :: nat

text \<open>Modelled from the spec: \<open>EmbeddingRecord\<close> of section 3, stored under
  the id of its chunk.\<close>

record EmbeddingRecord =
  vector :: "rat list"
  dimensionality :: nat
  content_hash :: hash

text \<open>Modelled from the spec: \<open>IndexManifest\<close> of section 3 (document id to
  content hash and the chunk ids currently indexed) and the index, both as lists of
  entries by key, held in one store (section 9), empty on the first run.\<close>

type_synonym manifest_entry = "hash \<times> chunk_key list"

text \<open>Modelled from the spec: the store that owns the manifest and the index (sections 3
  and 9).\<close>

record store =
  manifest :: "(doc_key \<times> manifest_entry) list"
  index :: "(chunk_key \<times> EmbeddingRecord) list"

text \<open>Modelled from the spec: the store of the first run: the manifest is initialised
  empty (section 3).\<close>

definition empty_store :: store where
  "empty_store = \<lparr> manifest = [], index = [] \<rparr>"

text \<open>Modelled from the spec: the partition that the Change Tracker of section 4.1
  produces.\<close>

record partition =
  unchanged :: "SourceDocument list"
  modified :: "SourceDocument list"
  added :: "SourceDocument list"
  deleted :: "doc_key list"

text \<open>Modelled from the spec: the Change Tracker of section 4.1, given the hash function,
  the manifest and the scan of the document tree: modified iff the fresh hash differs
  from the recorded one, added iff there is no manifest entry, deleted iff a manifest
  entry has no file. It reads the manifest and does not change it.\<close>

definition track ::
  "(string \<Rightarrow> hash) \<Rightarrow> (doc_key \<times> manifest_entry) list \<Rightarrow> SourceDocument list \<Rightarrow> partition" where
  "track h m scan =
     \<lparr> unchanged =
         filter (\<lambda>d. case map_of m (doc_id d) of
                        None \<Rightarrow> False | Some e \<Rightarrow> fst e = h (raw_content d)) scan,
       modified =
         filter (\<lambda>d. case map_of m (doc_id d) of
                        None \<Rightarrow> False | Some e \<Rightarrow> fst e \<noteq> h (raw_content d)) scan,
       added = filter (\<lambda>d. map_of m (doc_id d) = None) scan,
       deleted = filter (\<lambda>k. k \<notin> set (map doc_id scan)) (map fst m) \<rparr>"

text \<open>Modelled from the spec: \<open>ParseError\<close> of sections 4.2 and 7. The
  Document Processor itself is a parameter below, a function from a document to its
  sections (title and text) or a \<open>ParseError\<close>; \<open>chunks_of\<close>
  gives the chunks their ids, by ordinal, and their metadata (sections 3 and 4.2).\<close>

datatype parse_error = ParseError

text \<open>Modelled from the spec: the chunks of a document, from its sections in order: the id
  is derived from the document id and the section ordinal, and every chunk carries the
  section title, technology, category and position (sections 3 and 4.2).\<close>

definition chunks_of :: "SourceDocument \<Rightarrow> (string \<times> string) list \<Rightarrow> Chunk list" where
  "chunks_of d sections =
     map (\<lambda>(n, title, text).
            \<lparr> chunk_id = (doc_id d, n), chunk_text = text, chunk_title = title,
              chunk_technology = doc_technology d, chunk_category = doc_category d,
              chunk_position = n \<rparr>)
         (enumerate 0 sections)"

text \<open>Modelled from the spec: a chunk is "already present with a matching content hash"
  (section 4.3) when the index has a record under its id whose hash is the hash of its
  text.\<close>

definition up_to_date :: "(string \<Rightarrow> hash) \<Rightarrow> (chunk_key \<times> EmbeddingRecord) list \<Rightarrow> Chunk \<Rightarrow> bool" where
  "up_to_date h idx c =
     (case map_of idx (chunk_id c) of
        None \<Rightarrow> False
      | Some r \<Rightarrow> content_hash r = h (chunk_text c))"

text \<open>Modelled from the spec: the chunks that section 4.3 embeds: those not already
  present with a matching content hash.\<close>

definition to_embed :: "(string \<Rightarrow> hash) \<Rightarrow> (chunk_key \<times> EmbeddingRecord) list \<Rightarrow> Chunk list \<Rightarrow> Chunk list" where
  "to_embed h idx cs = filter (\<lambda>c. \<not> up_to_date h idx c) cs"

text \<open>Modelled from the spec: embedding one chunk and writing its record (sections 4.3 and
  6). The embedding capability is a parameter; \<open>None\<close> is an
  \<open>EmbeddingFailure\<close> after the retries, which leaves the chunk absent
  from the index (section 7).\<close>

definition store_embedding ::
  "(string \<Rightarrow> rat list option) \<Rightarrow> (string \<Rightarrow> hash) \<Rightarrow> Chunk \<Rightarrow>
   (chunk_key \<times> EmbeddingRecord) list \<Rightarrow> (chunk_key \<times> EmbeddingRecord) list" where
  "store_embedding embedder h c idx =
     (case embedder (chunk_text c) of
        None \<Rightarrow> AList.delete (chunk_id c) idx
      | Some v \<Rightarrow>
          AList.update (chunk_id c)
            \<lparr> vector = v, dimensionality = length v, content_hash = h (chunk_text c) \<rparr> idx)"

text \<open>Modelled from the spec: the chunk ids that the manifest records for a document.\<close>

definition recorded_ids :: "(doc_key \<times> manifest_entry) list \<Rightarrow> doc_key \<Rightarrow> chunk_key list" where
  "recorded_ids m k = (case map_of m k of None \<Rightarrow> [] | Some e \<Rightarrow> snd e)"

text \<open>Modelled from the spec: section 4.3 for a deleted document: remove the records of
  all its chunk ids and drop the manifest entry.\<close>

definition delete_document :: "doc_key \<Rightarrow> store \<Rightarrow> store" where
  "delete_document k st =
     \<lparr> manifest = AList.delete k (manifest st),
       index = fold AList.delete (recorded_ids (manifest st) k) (index st) \<rparr>"

text \<open>Modelled from the spec: section 4.3 for an added or modified document: re-parse (a
  \<open>ParseError\<close> skips the document, section 4.2), embed the chunks that
  are not up to date, remove the records of the recorded chunk ids that are no longer
  produced, and last set the manifest entry to the new hash and the chunk ids now
  indexed (the manifest holds the "chunk ids currently indexed", section 3).\<close>

definition apply_document ::
  "(string \<Rightarrow> rat list option) \<Rightarrow> (SourceDocument \<Rightarrow> parse_error + (string \<times> string) list) \<Rightarrow>
   (string \<Rightarrow> hash) \<Rightarrow> SourceDocument \<Rightarrow> store \<Rightarrow> store" where
  "apply_document embedder parser h d st =
     (case parser d of
        Inl e \<Rightarrow> st
      | Inr sections \<Rightarrow>
          (let cs = chunks_of d sections;
               produced = map chunk_id cs;
               idx1 = fold (store_embedding embedder h) (to_embed h (index st) cs) (index st);
               idx2 = fold AList.delete
                        (filter (\<lambda>i. i \<notin> set produced) (recorded_ids (manifest st) (doc_id d))) idx1;
               indexed = filter (\<lambda>i. i \<in> fst ` set idx2) produced
           in \<lparr> manifest = AList.update (doc_id d) (h (raw_content d), indexed) (manifest st),
                index = idx2 \<rparr>))"

text \<open>Modelled from the spec: \<open>apply(partition)\<close> of section 4.3.\<close>

definition apply_partition ::
  "(string \<Rightarrow> rat list option) \<Rightarrow> (SourceDocument \<Rightarrow> parse_error + (string \<times> string) list) \<Rightarrow>
   (string \<Rightarrow> hash) \<Rightarrow> partition \<Rightarrow> store \<Rightarrow> store" where
  "apply_partition embedder parser h p st =
     fold (apply_document embedder parser h) (added p @ modified p)
       (fold delete_document (deleted p) st)"

text \<open>Modelled from the spec: one indexing pass: the Change Tracker, then the apply of its
  partition.\<close>

definition index_pass ::
  "(string \<Rightarrow> rat list option) \<Rightarrow> (SourceDocument \<Rightarrow> parse_error + (string \<times> string) list) \<Rightarrow>
   (string \<Rightarrow> hash) \<Rightarrow> SourceDocument list \<Rightarrow> store \<Rightarrow> store" where
  "index_pass embedder parser h scan st =
     apply_partition embedder parser h (track h (manifest st) scan) st"



text \<open>Modelled from the spec: what the states of the store have in common beyond
  consistency: keys occur once, the chunk ids that the manifest records for a document
  are distinct and are ids of that document, and a chunk id has a record exactly when
  the manifest records it.\<close>

definition well_formed :: "store \<Rightarrow> bool" where
  "well_formed st \<longleftrightarrow>
     distinct (map fst (manifest st)) \<and>
     distinct (map fst (index st)) \<and>
     (\<forall>k e. map_of (manifest st) k = Some e \<longrightarrow> distinct (snd e) \<and> (\<forall>i \<in> set (snd e). fst i = k)) \<and>
     (\<forall>i. i \<in> fst ` set (index st) \<longleftrightarrow> i \<in> set (recorded_ids (manifest st) (fst i)))"


text \<open>
  A Document Processor, an embedding capability and a hash function for the examples,
  and three documents: the parser makes one section of every line, titled by what
  precedes the colon, and fails on an empty document.
\<close>

definition split_lines :: "string \<Rightarrow> string list" where
  "split_lines s =
     foldr (\<lambda>c acc. if c = CHR 0x0A then [] # acc else (c # hd acc) # tl acc) s [[]]"

definition line_parser :: "SourceDocument \<Rightarrow> parse_error + (string \<times> string) list" where
  "line_parser d =
     (if raw_content d = [] then Inl ParseError
      else Inr (map (\<lambda>l. (takeWhile (\<lambda>c. c \<noteq> CHR '':'') l, l)) (split_lines (raw_content d))))"

definition length_embedder :: "string \<Rightarrow> rat list option" where
  "length_embedder t = Some [of_nat (length t)]"

definition identity_hash :: "string \<Rightarrow> hash" where
  "identity_hash s = s"

definition doc_a :: SourceDocument where
  "doc_a = \<lparr> doc_path = ''a.md'', doc_technology = ''qdrant'',
             raw_content = ''Intro: hi'' @ [CHR 0x0A] @ ''Scaling: shards'',
             last_modified = 1, doc_category = ''guides'' \<rparr>"

definition doc_a_edited :: SourceDocument where
  "doc_a_edited = doc_a \<lparr> raw_content := ''Intro: hello'' @ [CHR 0x0A] @ ''Scaling: shards'',
                          last_modified := 2 \<rparr>"


definition store_a :: store where
  "store_a = index_pass length_embedder line_parser identity_hash [doc_a] empty_store"

section \<open>Properties of the hook\<close>

subsection \<open>What a call does to the messages\<close>

lemma messages_abort_current: "messages (abort_current st) = messages st"
  by (simp add: abort_current_def split: option.split)

lemma messages_append_begin:
  "messages (append_begin body c opts uuid st) = messages st @ [userMessage uuid c]"
  by (simp add: append_begin_def Let_def messages_abort_current)

lemma messages_stop: "messages (stop st) = messages st"
  by (simp add: stop_def split: option.split)

lemma messages_settled: "messages (settled ctl st) = messages st"
  by (simp add: settled_def)

lemma messages_updateConversationId: "messages (updateConversationId n st) = messages st"
  by (simp add: updateConversationId_def)

lemma append_settle_thrown:
  "thrown r \<noteq> None \<Longrightarrow>
   append_settle r uuid st = (ReturnUndefined, st\<lparr> error := thrown r, isLoading := False \<rparr>)"
  by (cases r) (simp_all add: append_settle_def thrown_def)

lemma messages_append_settle_ok:
  "messages (snd (append_settle (OkResponse data) uuid st)) =
     messages st @ [assistantMessage uuid data]"
  by (simp add: append_settle_def Let_def messages_updateConversationId)

lemma fst_append_settle_ok:
  "fst (append_settle (OkResponse data) uuid st) = ReturnString (conversation_id data)"
  by (simp add: append_settle_def Let_def)

lemma messages_append_chat_ok:
  "trim c \<noteq> [] \<Longrightarrow>
   messages (snd (append_chat body c opts uuid1 uuid2 (OkResponse data) st)) =
     messages st @ [userMessage uuid1 c, assistantMessage uuid2 data]"
  by (simp add: append_chat_def Let_def messages_append_settle_ok messages_settled
      messages_append_begin)

lemma fst_append_chat_ok:
  "trim c \<noteq> [] \<Longrightarrow>
   fst (append_chat body c opts uuid1 uuid2 (OkResponse data) st) =
     ReturnString (conversation_id data)"
  by (simp add: append_chat_def Let_def fst_append_settle_ok)

subsection \<open>The last user message\<close>

lemma reduceRight_snoc:
  "reduceRight f a (xs @ [x]) = reduceRight f (f a x (length xs)) xs"
  by (simp add: reduceRight_def)

lemma reduceRight_keeps:
  "a \<noteq> - 1 \<Longrightarrow>
   reduceRight (\<lambda>acc m i. if acc = - 1 \<and> role m = User then int i else acc) a ms = (a::int)"
proof (induction ms arbitrary: a rule: rev_induct)
  case Nil
  show ?case by (simp add: reduceRight_def)
next
  case (snoc m ms)
  then show ?case by (simp add: reduceRight_snoc)
qed

lemma lastUserMessageIndex_Nil: "lastUserMessageIndex [] = - 1"
  by (simp add: lastUserMessageIndex_def reduceRight_def)

lemma lastUserMessageIndex_snoc:
  "lastUserMessageIndex (ms @ [m]) =
     (if role m = User then int (length ms) else lastUserMessageIndex ms)"
  by (simp add: lastUserMessageIndex_def reduceRight_snoc reduceRight_keeps)

lemma lastUserMessageIndex_none:
  "lastUserMessageIndex ms = - 1 \<longleftrightarrow> (\<forall>m \<in> set ms. role m \<noteq> User)"
  by (induction ms rule: rev_induct)
    (auto simp: lastUserMessageIndex_Nil lastUserMessageIndex_snoc)

lemma lastUserMessageIndex_some:
  assumes "lastUserMessageIndex ms \<noteq> - 1"
  shows "0 \<le> lastUserMessageIndex ms \<and> nat (lastUserMessageIndex ms) < length ms \<and>
         role (ms ! nat (lastUserMessageIndex ms)) = User \<and>
         (\<forall>j. nat (lastUserMessageIndex ms) < j \<and> j < length ms \<longrightarrow> role (ms ! j) \<noteq> User)"
  using assms
proof (induction ms rule: rev_induct)
  case Nil
  then show ?case by (simp add: lastUserMessageIndex_Nil)
next
  case (snoc m ms)
  show ?case
  proof (cases "role m = User")
    case True
    then show ?thesis by (auto simp: lastUserMessageIndex_snoc)
  next
    case False
    with snoc show ?thesis
      by (auto simp: lastUserMessageIndex_snoc nth_append less_Suc_eq)
  qed
qed

lemma lui: "lastUserMessageIndex two_turns = 0"
  by code_simp

section \<open>Properties of the route\<close>








section \<open>Properties of the page\<close>




lemma idle_input [simp]: "idle (st\<lparr> input := x \<rparr>) = idle st"
  by (simp add: idle_def)

lemma awaiting_input [simp]: "awaiting (st\<lparr> input := x \<rparr>) = awaiting st"
  by (simp add: awaiting_def)

lemma idle_messages [simp]: "idle (st\<lparr> messages := x \<rparr>) = idle st"
  by (simp add: idle_def)















section \<open>Properties of the ingestion pipeline\<close>

lemma map_of_fold_delete:
  "map_of (fold AList.delete ks al) i = (if i \<in> set ks then None else map_of al i)"
  by (induction ks arbitrary: al) (simp_all add: delete_conv')

lemma keys_delete: "fst ` set (AList.delete k al) = fst ` set al - {k}"
proof -
  have "set (map fst (AList.delete k al)) = set (map fst al) - {k}"
    by (simp only: delete_keys set_removeAll)
  then show ?thesis by simp
qed

lemma keys_fold_delete: "fst ` set (fold AList.delete ks al) = fst ` set al - set ks"
  by (induction ks arbitrary: al) (auto simp: keys_delete)

lemma distinct_fold_delete:
  "distinct (map fst al) \<Longrightarrow> distinct (map fst (fold AList.delete ks al))"
  by (induction ks arbitrary: al) (simp_all add: distinct_delete)

lemma map_of_store_embedding:
  "map_of (store_embedding embedder h c idx) i =
     (if i = chunk_id c
      then (case embedder (chunk_text c) of
              None \<Rightarrow> None
            | Some v \<Rightarrow> Some \<lparr> vector = v, dimensionality = length v, content_hash = h (chunk_text c) \<rparr>)
      else map_of idx i)"
  by (simp add: store_embedding_def update_conv' delete_conv' split: option.split)

lemma keys_store_embedding_other:
  "i \<noteq> chunk_id c \<Longrightarrow>
   i \<in> fst ` set (store_embedding embedder h c idx) \<longleftrightarrow> i \<in> fst ` set idx"
  by (cases "embedder (chunk_text c)") (simp_all add: store_embedding_def keys_delete dom_update)

lemma distinct_store_embedding:
  "distinct (map fst idx) \<Longrightarrow> distinct (map fst (store_embedding embedder h c idx))"
  by (simp add: store_embedding_def distinct_update distinct_delete split: option.split)

lemma map_of_fold_store_other:
  "i \<notin> chunk_id ` set cs \<Longrightarrow>
   map_of (fold (store_embedding embedder h) cs idx) i = map_of idx i"
  by (induction cs arbitrary: idx) (simp_all add: map_of_store_embedding)

lemma keys_fold_store_other:
  "i \<notin> chunk_id ` set cs \<Longrightarrow>
   i \<in> fst ` set (fold (store_embedding embedder h) cs idx) \<longleftrightarrow> i \<in> fst ` set idx"
  by (induction cs arbitrary: idx) (simp_all add: keys_store_embedding_other)

lemma distinct_fold_store:
  "distinct (map fst idx) \<Longrightarrow> distinct (map fst (fold (store_embedding embedder h) cs idx))"
  by (induction cs arbitrary: idx) (simp_all add: distinct_store_embedding)

lemma chunk_ids_chunks_of:
  "map chunk_id (chunks_of d sections) = map (\<lambda>n. (doc_id d, n)) [0..<length sections]"
proof -
  have pair: "map (\<lambda>x. (k, fst x)) xs = map (\<lambda>n. (k, n)) (map fst xs)"
    for k :: doc_key and xs :: "(nat \<times> string \<times> string) list"
    by (simp add: comp_def)
  have "map chunk_id (chunks_of d sections) =
          map (\<lambda>x. (doc_id d, fst x)) (enumerate 0 sections)"
    by (simp add: chunks_of_def split_def comp_def)
  also have "\<dots> = map (\<lambda>n. (doc_id d, n)) (map fst (enumerate 0 sections))"
    by (rule pair)
  also have "map fst (enumerate 0 sections) = [0..<length sections]"
    by simp
  finally show ?thesis .
qed

lemma distinct_chunk_ids: "distinct (map chunk_id (chunks_of d sections))"
  by (simp only: chunk_ids_chunks_of) (simp add: distinct_map inj_on_def)

lemma fst_chunk_ids: "i \<in> set (map chunk_id (chunks_of d sections)) \<Longrightarrow> fst i = doc_id d"
  by (simp only: chunk_ids_chunks_of) auto

lemma recorded_ids_delete:
  "recorded_ids (AList.delete k m) k' = (if k' = k then [] else recorded_ids m k')"
  by (simp add: recorded_ids_def delete_conv')

lemma recorded_ids_update:
  "recorded_ids (AList.update k e m) k' = (if k' = k then snd e else recorded_ids m k')"
  by (simp add: recorded_ids_def update_conv')

lemma well_formed_entry:
  "well_formed st \<Longrightarrow> map_of (manifest st) k = Some e \<Longrightarrow>
   distinct (snd e) \<and> (\<forall>i \<in> set (snd e). fst i = k)"
  unfolding well_formed_def by blast

lemma well_formed_keys:
  "well_formed st \<Longrightarrow>
   i \<in> fst ` set (index st) \<longleftrightarrow> i \<in> set (recorded_ids (manifest st) (fst i))"
  unfolding well_formed_def by blast

lemma well_formed_distinct:
  "well_formed st \<Longrightarrow> distinct (map fst (manifest st)) \<and> distinct (map fst (index st))"
  unfolding well_formed_def by blast

lemma well_formed_owner:
  assumes "well_formed st" and "i \<in> set (recorded_ids (manifest st) k)"
  shows "fst i = k"
proof (cases "map_of (manifest st) k")
  case None
  with assms(2) show ?thesis by (simp add: recorded_ids_def)
next
  case (Some e)
  with assms(2) have "i \<in> set (snd e)" by (simp add: recorded_ids_def)
  with well_formed_entry [OF assms(1) Some] show ?thesis by blast
qed

lemma well_formed_empty: "well_formed empty_store"
  by (simp add: well_formed_def empty_store_def recorded_ids_def)

lemma well_formed_delete_document:
  assumes "well_formed st"
  shows "well_formed (delete_document k st)"
proof -
  let ?m = "AList.delete k (manifest st)"
  let ?idx = "fold AList.delete (recorded_ids (manifest st) k) (index st)"
  have st': "delete_document k st = \<lparr> manifest = ?m, index = ?idx \<rparr>"
    by (simp add: delete_document_def)
  have own: "fst i = k" if "i \<in> set (recorded_ids (manifest st) k)" for i
    using assms that by (rule well_formed_owner)
  note iff = well_formed_keys [OF assms]
  have key: "i \<in> fst ` set ?idx \<longleftrightarrow> i \<in> set (recorded_ids ?m (fst i))" for i
  proof (cases "fst i = k")
    case True
    have "i \<notin> fst ` set ?idx"
      using iff [of i] True by (simp only: keys_fold_delete) blast
    with True show ?thesis by (simp add: recorded_ids_delete)
  next
    case False
    then have "i \<notin> set (recorded_ids (manifest st) k)" using own by blast
    then have "i \<in> fst ` set ?idx \<longleftrightarrow> i \<in> fst ` set (index st)"
      by (simp only: keys_fold_delete) blast
    with False iff [of i] show ?thesis by (simp add: recorded_ids_delete)
  qed
  have d1: "distinct (map fst ?m)"
    using well_formed_distinct [OF assms] by (simp add: distinct_delete)
  have d2: "distinct (map fst ?idx)"
    using well_formed_distinct [OF assms] by (simp add: distinct_fold_delete)
  have entries: "distinct (snd e) \<and> (\<forall>i \<in> set (snd e). fst i = k')"
    if "map_of ?m k' = Some e" for k' e
  proof -
    from that have "map_of (manifest st) k' = Some e"
      by (simp add: delete_conv' split: if_splits)
    with assms show ?thesis by (rule well_formed_entry)
  qed
  show ?thesis
    unfolding st' well_formed_def using d1 d2 entries key by simp
qed

lemma well_formed_apply_document:
  assumes "well_formed st"
  shows "well_formed (apply_document embedder parser h d st)"
proof (cases "parser d")
  case (Inl e)
  then show ?thesis using assms by (simp add: apply_document_def)
next
  case (Inr sections)
  define k where "k = doc_id d"
  define cs where "cs = chunks_of d sections"
  define produced where "produced = map chunk_id cs"
  define old where "old = recorded_ids (manifest st) k"
  define idx1 where "idx1 = fold (store_embedding embedder h) (to_embed h (index st) cs) (index st)"
  define idx2 where "idx2 = fold AList.delete (filter (\<lambda>i. i \<notin> set produced) old) idx1"
  define indexed where "indexed = filter (\<lambda>i. i \<in> fst ` set idx2) produced"
  define m' where "m' = AList.update k (h (raw_content d), indexed) (manifest st)"
  have st': "apply_document embedder parser h d st = \<lparr> manifest = m', index = idx2 \<rparr>"
    by (simp add: apply_document_def Inr Let_def k_def cs_def produced_def old_def idx1_def
        idx2_def indexed_def m'_def)
  have own_old: "fst i = k" if "i \<in> set old" for i
    using assms that unfolding old_def by (rule well_formed_owner)
  have own_new: "fst i = k" if "i \<in> set produced" for i
    using that unfolding produced_def cs_def k_def by (rule fst_chunk_ids)
  note iff = well_formed_keys [OF assms]
  have idx1_other: "i \<in> fst ` set idx1 \<longleftrightarrow> i \<in> fst ` set (index st)" if "i \<notin> set produced" for i
  proof -
    have "i \<notin> chunk_id ` set (to_embed h (index st) cs)"
      using that by (auto simp: produced_def to_embed_def)
    then show ?thesis unfolding idx1_def by (rule keys_fold_store_other)
  qed
  have idx2: "i \<in> fst ` set idx2 \<longleftrightarrow> i \<in> fst ` set idx1 \<and> \<not> (i \<in> set old \<and> i \<notin> set produced)" for i
    unfolding idx2_def by (simp only: keys_fold_delete) auto
  have rec: "recorded_ids m' k' = (if k' = k then indexed else recorded_ids (manifest st) k')" for k'
    by (simp add: m'_def recorded_ids_update)
  have key: "i \<in> fst ` set idx2 \<longleftrightarrow> i \<in> set (recorded_ids m' (fst i))" for i
  proof (cases "fst i = k")
    case False
    then have "i \<notin> set old" "i \<notin> set produced" using own_old own_new by blast+
    then have "i \<in> fst ` set idx2 \<longleftrightarrow> i \<in> fst ` set (index st)"
      using idx2 [of i] idx1_other [of i] by blast
    with False iff [of i] show ?thesis by (simp add: rec)
  next
    case True
    have "i \<in> set produced" if in2: "i \<in> fst ` set idx2"
    proof (rule ccontr)
      assume n: "i \<notin> set produced"
      from in2 have in1: "i \<in> fst ` set idx1" and no: "\<not> (i \<in> set old \<and> i \<notin> set produced)"
        using idx2 [of i] by blast+
      from no n have "i \<notin> set old" by blast
      with True have "i \<notin> fst ` set (index st)" using iff [of i] by (simp add: old_def)
      with n in1 show False using idx1_other [of i] by blast
    qed
    then have "i \<in> fst ` set idx2 \<longleftrightarrow> i \<in> set indexed"
      unfolding indexed_def by auto
    with True show ?thesis by (simp add: rec)
  qed
  have d1: "distinct (map fst m')"
    using well_formed_distinct [OF assms] by (simp add: m'_def distinct_update)
  have d2: "distinct (map fst idx2)"
    using well_formed_distinct [OF assms]
    by (simp add: idx2_def idx1_def distinct_fold_delete distinct_fold_store)
  have d3: "distinct indexed"
    by (simp add: indexed_def produced_def cs_def distinct_chunk_ids)
  have entries: "distinct (snd e) \<and> (\<forall>i \<in> set (snd e). fst i = k')"
    if "map_of m' k' = Some e" for k' e
  proof (cases "k' = k")
    case True
    with that have "snd e = indexed" by (auto simp: m'_def update_conv')
    moreover have "\<forall>i \<in> set indexed. fst i = k" using own_new by (simp add: indexed_def)
    ultimately show ?thesis using d3 True by simp
  next
    case False
    with that have "map_of (manifest st) k' = Some e" by (simp add: m'_def update_conv')
    with assms show ?thesis by (rule well_formed_entry)
  qed
  show ?thesis
    unfolding st' well_formed_def using d1 d2 entries key by simp
qed

lemma well_formed_fold_delete:
  "well_formed st \<Longrightarrow> well_formed (fold delete_document ks st)"
  by (induction ks arbitrary: st) (simp_all add: well_formed_delete_document)

lemma well_formed_fold_apply:
  "well_formed st \<Longrightarrow> well_formed (fold (apply_document embedder parser h) ds st)"
  by (induction ds arbitrary: st) (simp_all add: well_formed_apply_document)

lemma well_formed_apply_partition:
  "well_formed st \<Longrightarrow> well_formed (apply_partition embedder parser h p st)"
  by (simp add: apply_partition_def well_formed_fold_apply well_formed_fold_delete)




lemma map_of_fold_store_same:
  assumes "c \<in> set cs" and "inj_on chunk_id (set cs)"
  shows "map_of (fold (store_embedding embedder h) cs idx) (chunk_id c) =
           (case embedder (chunk_text c) of
              None \<Rightarrow> None
            | Some v \<Rightarrow> Some \<lparr> vector = v, dimensionality = length v, content_hash = h (chunk_text c) \<rparr>)"
  using assms
proof (induction cs arbitrary: idx)
  case Nil
  then show ?case by simp
next
  case (Cons a cs)
  from Cons.prems have inj: "inj_on chunk_id (set cs)" by (simp add: inj_on_def)
  show ?case
  proof (cases "c \<in> set cs")
    case True
    then show ?thesis using Cons.IH [OF True inj] by simp
  next
    case False
    with Cons.prems have ca: "c = a" by simp
    have "chunk_id c \<notin> chunk_id ` set cs"
    proof
      assume "chunk_id c \<in> chunk_id ` set cs"
      then obtain c' where c': "c' \<in> set cs" and eq: "chunk_id c = chunk_id c'" by blast
      from Cons.prems(2) c' ca eq have "c = c'" by (simp add: inj_on_def)
      with c' False show False by simp
    qed
    then have e1: "map_of (fold (store_embedding embedder h) cs (store_embedding embedder h a idx)) (chunk_id c) =
        map_of (store_embedding embedder h a idx) (chunk_id c)"
      by (rule map_of_fold_store_other)
    have e2: "map_of (store_embedding embedder h a idx) (chunk_id c) =
        (case embedder (chunk_text c) of
           None \<Rightarrow> None
         | Some v \<Rightarrow> Some \<lparr> vector = v, dimensionality = length v, content_hash = h (chunk_text c) \<rparr>)"
      unfolding ca by (simp add: map_of_store_embedding)
    have "fold (store_embedding embedder h) (a # cs) idx =
        fold (store_embedding embedder h) cs (store_embedding embedder h a idx)"
      by simp
    then show ?thesis by (simp only: e1 e2)
  qed
qed

lemma inj_chunk_ids: "inj_on chunk_id (set (chunks_of d sections))"
  using distinct_chunk_ids [of d sections] by (simp add: distinct_map)

text \<open>The index after the embedding step, at the id of a chunk of the document.\<close>

lemma index_after_embedding:
  assumes "c \<in> set cs" and "inj_on chunk_id (set cs)"
  shows "map_of (fold (store_embedding embedder h) (to_embed h idx cs) idx) (chunk_id c) =
           (if up_to_date h idx c then map_of idx (chunk_id c)
            else (case embedder (chunk_text c) of
                    None \<Rightarrow> None
                  | Some v \<Rightarrow> Some \<lparr> vector = v, dimensionality = length v,
                                     content_hash = h (chunk_text c) \<rparr>))"
proof (cases "up_to_date h idx c")
  case True
  have "chunk_id c \<notin> chunk_id ` set (to_embed h idx cs)"
  proof
    assume "chunk_id c \<in> chunk_id ` set (to_embed h idx cs)"
    then obtain c' where c': "c' \<in> set cs" "\<not> up_to_date h idx c'" and eq: "chunk_id c = chunk_id c'"
      by (auto simp: to_embed_def)
    from assms c'(1) eq have "c = c'" by (simp add: inj_on_def)
    with c'(2) True show False by simp
  qed
  then show ?thesis using True by (simp add: map_of_fold_store_other)
next
  case False
  with assms(1) have "c \<in> set (to_embed h idx cs)" by (simp add: to_embed_def)
  moreover have "inj_on chunk_id (set (to_embed h idx cs))"
    using assms(2) by (auto simp: to_embed_def inj_on_def)
  ultimately show ?thesis using False by (simp add: map_of_fold_store_same)
qed

lemma apply_document_index:
  assumes "parser d = Inr sections" and "c \<in> set (chunks_of d sections)"
  shows "map_of (index (apply_document embedder parser h d st)) (chunk_id c) =
           (if up_to_date h (index st) c then map_of (index st) (chunk_id c)
            else (case embedder (chunk_text c) of
                    None \<Rightarrow> None
                  | Some v \<Rightarrow> Some \<lparr> vector = v, dimensionality = length v,
                                     content_hash = h (chunk_text c) \<rparr>))"
proof -
  have "chunk_id c \<in> set (map chunk_id (chunks_of d sections))" using assms(2) by simp
  then show ?thesis
    using index_after_embedding [OF assms(2) inj_chunk_ids, of embedder h "index st"]
    by (simp add: apply_document_def assms(1) Let_def map_of_fold_delete)
qed

lemma apply_document_index_other:
  assumes "well_formed st" and "fst i \<noteq> doc_id d"
  shows "map_of (index (apply_document embedder parser h d st)) i = map_of (index st) i"
proof (cases "parser d")
  case (Inl e)
  then show ?thesis by (simp add: apply_document_def)
next
  case (Inr sections)
  have a: "i \<notin> set (recorded_ids (manifest st) (doc_id d))"
    using well_formed_owner [OF assms(1)] assms(2) by blast
  have "i \<notin> set (map chunk_id (chunks_of d sections))"
    using fst_chunk_ids assms(2) by blast
  then have "i \<notin> chunk_id ` set (to_embed h (index st) (chunks_of d sections))"
    by (auto simp: to_embed_def)
  then have "map_of (fold (store_embedding embedder h) (to_embed h (index st) (chunks_of d sections))
      (index st)) i = map_of (index st) i"
    by (rule map_of_fold_store_other)
  with a show ?thesis
    by (simp add: apply_document_def Inr Let_def map_of_fold_delete)
qed

lemma apply_document_embedder_cong:
  assumes "\<And>sections c. parser d = Inr sections \<Longrightarrow>
      c \<in> set (to_embed h (index st) (chunks_of d sections)) \<Longrightarrow>
      embedder' (chunk_text c) = embedder (chunk_text c)"
  shows "apply_document embedder' parser h d st = apply_document embedder parser h d st"
proof (cases "parser d")
  case (Inl e)
  then show ?thesis by (simp add: apply_document_def)
next
  case (Inr sections)
  have step: "fold (store_embedding embedder' h) cs idx = fold (store_embedding embedder h) cs idx"
    if "\<And>c. c \<in> set cs \<Longrightarrow> embedder' (chunk_text c) = embedder (chunk_text c)" for cs idx
    using that
  proof (induction cs arbitrary: idx)
    case Nil
    then show ?case by simp
  next
    case (Cons a cs)
    have "store_embedding embedder' h a idx = store_embedding embedder h a idx"
      using Cons.prems [of a] by (simp add: store_embedding_def)
    with Cons show ?case by simp
  qed
  have "fold (store_embedding embedder' h) (to_embed h (index st) (chunks_of d sections)) (index st) =
        fold (store_embedding embedder h) (to_embed h (index st) (chunks_of d sections)) (index st)"
    using assms [OF Inr] by (rule step)
  then show ?thesis by (simp add: apply_document_def Inr Let_def)
qed














lemma store_a_value:
  "store_a =
     \<lparr> manifest =
         [((''a.md'', ''qdrant''),
           ''Intro: hi'' @ [CHR 0x0A] @ ''Scaling: shards'',
           [((''a.md'', ''qdrant''), 0), ((''a.md'', ''qdrant''), 1)])],
       index =
         [(((''a.md'', ''qdrant''), 0),
           \<lparr> vector = [9], dimensionality = 1, content_hash = ''Intro: hi'' \<rparr>),
          (((''a.md'', ''qdrant''), 1),
           \<lparr> vector = [15], dimensionality = 1, content_hash = ''Scaling: shards'' \<rparr>)] \<rparr>"
  by code_simp

lemma well_formed_store_a: "well_formed store_a"
proof -
  have "well_formed (apply_partition length_embedder line_parser identity_hash
      (track identity_hash (manifest empty_store) [doc_a]) empty_store)"
    using well_formed_empty by (rule well_formed_apply_partition)
  then show ?thesis by (simp add: store_a_def index_pass_def)
qed

lemma parse_doc_a_edited:
  "line_parser doc_a_edited = Inr [(''Intro'', ''Intro: hello''), (''Scaling'', ''Scaling: shards'')]"
  by code_simp

lemma chunks_doc_a_edited:
  "chunks_of doc_a_edited [(''Intro'', ''Intro: hello''), (''Scaling'', ''Scaling: shards'')] =
     [\<lparr> chunk_id = ((''a.md'', ''qdrant''), 0), chunk_text = ''Intro: hello'', chunk_title = ''Intro'',
        chunk_technology = ''qdrant'', chunk_category = ''guides'', chunk_position = 0 \<rparr>,
      \<lparr> chunk_id = ((''a.md'', ''qdrant''), 1), chunk_text = ''Scaling: shards'',
        chunk_title = ''Scaling'', chunk_technology = ''qdrant'', chunk_category = ''guides'',
        chunk_position = 1 \<rparr>]"
  by code_simp

lemma stale_doc_a_edited:
  "to_embed identity_hash (index store_a)
     [\<lparr> chunk_id = ((''a.md'', ''qdrant''), 0), chunk_text = ''Intro: hello'', chunk_title = ''Intro'',
        chunk_technology = ''qdrant'', chunk_category = ''guides'', chunk_position = 0 \<rparr>,
      \<lparr> chunk_id = ((''a.md'', ''qdrant''), 1), chunk_text = ''Scaling: shards'',
        chunk_title = ''Scaling'', chunk_technology = ''qdrant'', chunk_category = ''guides'',
        chunk_position = 1 \<rparr>] =
     [\<lparr> chunk_id = ((''a.md'', ''qdrant''), 0), chunk_text = ''Intro: hello'', chunk_title = ''Intro'',
        chunk_technology = ''qdrant'', chunk_category = ''guides'', chunk_position = 0 \<rparr>]"
  by (simp add: store_a_value to_embed_def up_to_date_def identity_hash_def)

section \<open>The claims about the chat hook and the route\<close>




text \<open>
  C2, as amended.  When the request of a turn is cancelled or fails (the \<open>fetch\<close> is
  rejected, the status is not ok, or the body is not JSON), no assistant turn is
  appended: the messages are those before the call followed by the user turn, which
  \<open>append\<close> pushes before it issues the request and never takes back; the call
  resolves to \<open>undefined\<close> and \<open>error\<close> holds what was thrown.  The same holds when
  \<open>stop\<close> is called while the request is pending.
\<close>

theorem append_failure_keeps_user_turn:
  assumes "trim c \<noteq> []" and "thrown r \<noteq> None"
  shows "messages (snd (append_chat body c opts uuid1 uuid2 r st)) =
           messages st @ [\<lparr> id_msg = uuid1, role = User, content = trim c, sources = Some [] \<rparr>]
    \<and> messages (snd (append_settle r uuid2 (settled ctl (stop (append_begin body c opts uuid1 st))))) =
           messages st @ [\<lparr> id_msg = uuid1, role = User, content = trim c, sources = Some [] \<rparr>]
    \<and> fst (append_chat body c opts uuid1 uuid2 r st) = ReturnUndefined
    \<and> error (snd (append_chat body c opts uuid1 uuid2 r st)) = thrown r"
  using assms
  by (simp add: append_chat_def Let_def append_settle_thrown messages_append_begin
      messages_settled messages_stop userMessage_def)

theorem append_failure_keeps_user_turn_witness:
  "messages (snd (append_chat no_filters ''hi'' no_filters ''u1'' ''u2'' (ErrorResponse 504 None)
       (useChat None []))) =
     [\<lparr> id_msg = ''u1'', role = User, content = ''hi'', sources = Some [] \<rparr>]
   \<and> error (snd (append_chat no_filters ''hi'' no_filters ''u1'' ''u2'' (ErrorResponse 504 None)
       (useChat None []))) = Some (Error ''HTTP error! status: 504'')"
proof -
  have t: "trim ''hi'' \<noteq> []" by (simp add: trim_def isWhiteSpace_def)
  have th: "thrown (ErrorResponse 504 None) \<noteq> None" by (simp add: thrown_def)
  have tr: "trim ''hi'' = ''hi''" by (simp add: trim_def isWhiteSpace_def)
  have e: "thrown (ErrorResponse 504 None) = Some (Error ''HTTP error! status: 504'')"
    by (simp add: thrown_def)
  show ?thesis
    using append_failure_keeps_user_turn [OF t th, of no_filters no_filters "''u1''" "''u2''" "useChat None []" 0]
    by (simp add: tr e useChat_def)
qed

text \<open>
  A turn on an empty conversation whose request is aborted leaves the user turn in
  the messages.
\<close>

theorem cancelled_turn_appends_counterexample:
  "messages (useChat None []) = [] \<and>
   messages (snd (append_chat no_filters ''hi'' no_filters ''u1'' ''u2'' (Rejected AbortError)
       (useChat None []))) =
     [\<lparr> id_msg = ''u1'', role = User, content = ''hi'', sources = Some [] \<rparr>]"
  by (simp add: append_chat_def Let_def append_begin_def append_settle_def settled_def
      abort_current_def useChat_def userMessage_def trim_def isWhiteSpace_def no_filters_def)

text \<open>
  C3, as amended.  A call of \<open>append\<close> with a content that is not blank and whose
  request succeeds appends exactly one user turn, with the trimmed content, followed
  by exactly one assistant turn with the answer and the sources of the response; it
  resolves to the conversation id of the response alone.
\<close>

theorem append_success_appends_both_turns:
  assumes "trim c \<noteq> []"
  shows "messages (snd (append_chat body c opts uuid1 uuid2 (OkResponse data) st)) =
           messages st @
             [\<lparr> id_msg = uuid1, role = User, content = trim c, sources = Some [] \<rparr>,
              \<lparr> id_msg = uuid2, role = Assistant, content = response data,
                sources = Some (sources_resp data) \<rparr>]
    \<and> fst (append_chat body c opts uuid1 uuid2 (OkResponse data) st) =
           ReturnString (conversation_id data)"
  using assms
  by (simp add: messages_append_chat_ok fst_append_chat_ok userMessage_def assistantMessage_def)

theorem append_success_appends_both_turns_witness:
  "messages (snd (append_chat no_filters ''  how to configure? '' no_filters ''u1'' ''u2''
       (OkResponse \<lparr> conversation_id = ''c1'', response = ''Edit the file.'',
                     sources_resp = [qdrant_source] \<rparr>)
       (useChat None []))) =
     [\<lparr> id_msg = ''u1'', role = User, content = ''how to configure?'', sources = Some [] \<rparr>,
      \<lparr> id_msg = ''u2'', role = Assistant, content = ''Edit the file.'',
        sources = Some [qdrant_source] \<rparr>]
   \<and> fst (append_chat no_filters ''  how to configure? '' no_filters ''u1'' ''u2''
       (OkResponse \<lparr> conversation_id = ''c1'', response = ''Edit the file.'',
                     sources_resp = [qdrant_source] \<rparr>)
       (useChat None [])) = ReturnString ''c1''"
proof -
  have tr: "trim ''  how to configure? '' = ''how to configure?''"
    by (simp add: trim_def isWhiteSpace_def)
  then have t: "trim ''  how to configure? '' \<noteq> []" by simp
  show ?thesis
    using append_success_appends_both_turns [OF t, of no_filters no_filters "''u1''" "''u2''"
        "\<lparr> conversation_id = ''c1'', response = ''Edit the file.'', sources_resp = [qdrant_source] \<rparr>"
        "useChat None []"]
    by (simp add: tr useChat_def)
qed

text \<open>
  Two calls whose responses differ in answer and sources resolve to the same value,
  the conversation id: the value is not the triple.  The user turn holds the trimmed
  text, not the submitted one.
\<close>

theorem append_returns_id_only_counterexample:
  "fst (append_chat no_filters '' hi '' no_filters ''u1'' ''u2''
       (OkResponse \<lparr> conversation_id = ''c1'', response = ''yes'', sources_resp = [] \<rparr>)
       (useChat None [])) = ReturnString ''c1''
   \<and> fst (append_chat no_filters '' hi '' no_filters ''u1'' ''u2''
       (OkResponse \<lparr> conversation_id = ''c1'', response = ''no'', sources_resp = [qdrant_source] \<rparr>)
       (useChat None [])) = ReturnString ''c1''
   \<and> map content (messages (snd (append_chat no_filters '' hi '' no_filters ''u1'' ''u2''
       (OkResponse \<lparr> conversation_id = ''c1'', response = ''yes'', sources_resp = [] \<rparr>)
       (useChat None [])))) = [''hi'', ''yes'']"
  by (simp add: append_chat_def Let_def append_begin_def append_settle_def settled_def
      abort_current_def useChat_def userMessage_def assistantMessage_def trim_def isWhiteSpace_def
      no_filters_def updateConversationId_def)



text \<open>
  C10, as amended.  For a list with a user message, let \<open>i\<close> be the index that
  \<open>reload\<close> computes: it is the index of the most recent user message.  When the
  content of that message is not blank and the request succeeds, the messages
  afterwards are those up to \<open>i\<close>, then a fresh user message with the trimmed content,
  then the assistant message.  When the content is blank, \<open>reload\<close> truncates the
  list after \<open>i\<close>, pushes nothing and resolves to \<open>null\<close>.  For a list with no user
  message, \<open>reload\<close> resolves to \<open>null\<close> and leaves the state unchanged.
\<close>

theorem reload_resubmits_last_user_message:
  fixes st :: chat_state
  defines "i \<equiv> nat (lastUserMessageIndex (messages st))"
  defines "c \<equiv> content (messages st ! i)"
  shows "((\<exists>m \<in> set (messages st). role m = User) \<longrightarrow>
            i < length (messages st) \<and> role (messages st ! i) = User \<and>
            (\<forall>j. i < j \<and> j < length (messages st) \<longrightarrow> role (messages st ! j) \<noteq> User) \<and>
            (trim c \<noteq> [] \<longrightarrow>
               messages (snd (reload body opts uuid1 uuid2 (OkResponse data) st)) =
                 take i (messages st) @
                   [messages st ! i,
                    \<lparr> id_msg = uuid1, role = User, content = trim c, sources = Some [] \<rparr>,
                    \<lparr> id_msg = uuid2, role = Assistant, content = response data,
                      sources = Some (sources_resp data) \<rparr>] \<and>
               fst (reload body opts uuid1 uuid2 (OkResponse data) st) =
                 ReturnString (conversation_id data)) \<and>
            (trim c = [] \<longrightarrow>
               reload body opts uuid1 uuid2 r st =
                 (ReturnNull, st\<lparr> messages := take (i + 1) (messages st) \<rparr>))) \<and>
         ((\<forall>m \<in> set (messages st). role m \<noteq> User) \<longrightarrow>
            reload body opts uuid1 uuid2 r st = (ReturnNull, st))"
proof (intro conjI impI)
  assume no: "\<forall>m \<in> set (messages st). role m \<noteq> User"
  then have "lastUserMessageIndex (messages st) = - 1"
    by (simp add: lastUserMessageIndex_none)
  then show "reload body opts uuid1 uuid2 r st = (ReturnNull, st)"
    by (simp add: reload_def Let_def)
next
  assume ex: "\<exists>m \<in> set (messages st). role m = User"
  then have ne: "lastUserMessageIndex (messages st) \<noteq> - 1"
    by (simp add: lastUserMessageIndex_none)
  note some = lastUserMessageIndex_some [OF ne]
  from ex have nonempty: "length (messages st) \<noteq> 0" by auto
  have nat_suc: "nat (lastUserMessageIndex (messages st) + 1) = i + 1"
    using some by (simp add: i_def nat_add_distrib)
  show less: "i < length (messages st)" using some by (simp add: i_def)
  show "role (messages st ! i) = User" using some by (simp add: i_def)
  show "\<forall>j. i < j \<and> j < length (messages st) \<longrightarrow> role (messages st ! j) \<noteq> User"
    using some by (simp add: i_def)
  have unfold: "reload body opts uuid1 uuid2 r' st =
      append_chat body c opts uuid1 uuid2 r' (st\<lparr> messages := take (i + 1) (messages st) \<rparr>)" for r'
    using ne nonempty nat_suc by (simp add: reload_def Let_def c_def i_def)
  have tk: "take (Suc i) (messages st) = take i (messages st) @ [messages st ! i]"
    using less by (rule take_Suc_conv_app_nth)
  {
    assume t: "trim c \<noteq> []"
    show "messages (snd (reload body opts uuid1 uuid2 (OkResponse data) st)) =
            take i (messages st) @
              [messages st ! i,
               \<lparr> id_msg = uuid1, role = User, content = trim c, sources = Some [] \<rparr>,
               \<lparr> id_msg = uuid2, role = Assistant, content = response data,
                 sources = Some (sources_resp data) \<rparr>]"
      using t by (simp add: unfold messages_append_chat_ok tk userMessage_def assistantMessage_def)
    show "fst (reload body opts uuid1 uuid2 (OkResponse data) st) = ReturnString (conversation_id data)"
      using t by (simp add: unfold fst_append_chat_ok)
  }
  {
    assume t: "trim c = []"
    show "reload body opts uuid1 uuid2 r st = (ReturnNull, st\<lparr> messages := take (i + 1) (messages st) \<rparr>)"
      using t by (simp add: unfold append_chat_def)
  }
qed

theorem reload_resubmits_last_user_message_witness:
  "messages (snd (reload no_filters no_filters ''u1'' ''u2''
       (OkResponse \<lparr> conversation_id = ''c1'', response = ''One of the pieces.'', sources_resp = [] \<rparr>)
       (useChat (Some ''c1'') two_turns))) =
     [\<lparr> id_msg = ''m1'', role = User, content = ''what is a shard?'', sources = Some [] \<rparr>,
      \<lparr> id_msg = ''u1'', role = User, content = ''what is a shard?'', sources = Some [] \<rparr>,
      \<lparr> id_msg = ''u2'', role = Assistant, content = ''One of the pieces.'', sources = Some [] \<rparr>]
   \<and> reload no_filters no_filters ''u1'' ''u2'' BadJson (useChat None [] \<lparr> messages := [two_turns ! 1] \<rparr>) =
       (ReturnNull, useChat None [] \<lparr> messages := [two_turns ! 1] \<rparr>)"
proof -
  have m: "messages (useChat (Some ''c1'') two_turns) = two_turns" by (simp add: useChat_def)
  have tr: "trim ''what is a shard?'' = ''what is a shard?''" by (simp add: trim_def isWhiteSpace_def)
  have u: "\<exists>m \<in> set two_turns. role m = User" by (simp add: two_turns_def)
  have a: "\<forall>m \<in> set [two_turns ! 1]. role m \<noteq> User" by (simp add: two_turns_def)
  show ?thesis
    using reload_resubmits_last_user_message [of "useChat (Some ''c1'') two_turns" no_filters no_filters
        "''u1''" "''u2''" "\<lparr> conversation_id = ''c1'', response = ''One of the pieces.'', sources_resp = [] \<rparr>" BadJson]
      reload_resubmits_last_user_message [of "useChat None [] \<lparr> messages := [two_turns ! 1] \<rparr>" no_filters no_filters
        "''u1''" "''u2''" undefined BadJson]
      u a
    by (simp add: m lui tr) (simp add: two_turns_def tr)
qed

text \<open>
  A list whose only user message is blank: \<open>reload\<close> pushes no fresh user message and
  resolves to \<open>null\<close>.  A user message with a leading blank: the fresh user message
  has another content.
\<close>

theorem reload_blank_message_counterexample:
  "reload no_filters no_filters ''u1'' ''u2''
       (OkResponse \<lparr> conversation_id = ''c1'', response = ''hello'', sources_resp = [] \<rparr>)
       (useChat None [\<lparr> id_msg = ''m1'', role = User, content = '' '', sources = Some [] \<rparr>]) =
     (ReturnNull, useChat None [\<lparr> id_msg = ''m1'', role = User, content = '' '', sources = Some [] \<rparr>])
   \<and> map content (messages (snd (reload no_filters no_filters ''u1'' ''u2''
       (OkResponse \<lparr> conversation_id = ''c1'', response = ''hello'', sources_resp = [] \<rparr>)
       (useChat None [\<lparr> id_msg = ''m1'', role = User, content = '' hi'', sources = Some [] \<rparr>])))) =
     ['' hi'', ''hi'', ''hello'']"
  by (simp add: reload_def lastUserMessageIndex_def reduceRight_def Let_def append_chat_def
      append_begin_def append_settle_def settled_def abort_current_def useChat_def userMessage_def
      assistantMessage_def trim_def isWhiteSpace_def no_filters_def updateConversationId_def)

section \<open>The claims about the ingestion pipeline\<close>



text \<open>
  C6.  The apply of a document that parses embeds only the chunks that are not
  already present with a matching content hash: these are the only chunks whose
  embedding it depends on.  The record of every chunk of the document that is present
  with a matching hash, and every record of a chunk of another document, is the same
  after the apply as before.
\<close>

theorem reindexing_is_incremental:
  assumes "well_formed st" and "parser d = Inr sections"
  shows "(\<forall>c \<in> set (to_embed h (index st) (chunks_of d sections)).
            c \<in> set (chunks_of d sections) \<and> \<not> up_to_date h (index st) c)
    \<and> ((\<forall>c \<in> set (to_embed h (index st) (chunks_of d sections)).
            embedder' (chunk_text c) = embedder (chunk_text c)) \<longrightarrow>
         apply_document embedder' parser h d st = apply_document embedder parser h d st)
    \<and> (\<forall>c \<in> set (chunks_of d sections). up_to_date h (index st) c \<longrightarrow>
         map_of (index (apply_document embedder parser h d st)) (chunk_id c) =
           map_of (index st) (chunk_id c))
    \<and> (\<forall>i :: chunk_key. fst i \<noteq> doc_id d \<longrightarrow>
         map_of (index (apply_document embedder parser h d st)) i = map_of (index st) i)"
proof (intro conjI ballI allI impI)
  fix c
  assume "c \<in> set (to_embed h (index st) (chunks_of d sections))"
  then show "c \<in> set (chunks_of d sections)" and "\<not> up_to_date h (index st) c"
    by (simp_all add: to_embed_def)
next
  assume same: "\<forall>c \<in> set (to_embed h (index st) (chunks_of d sections)).
      embedder' (chunk_text c) = embedder (chunk_text c)"
  show "apply_document embedder' parser h d st = apply_document embedder parser h d st"
  proof (rule apply_document_embedder_cong)
    fix sections' c
    assume "parser d = Inr sections'" and c: "c \<in> set (to_embed h (index st) (chunks_of d sections'))"
    with assms(2) have "sections' = sections" by simp
    with c same show "embedder' (chunk_text c) = embedder (chunk_text c)" by blast
  qed
next
  fix c
  assume "c \<in> set (chunks_of d sections)" and "up_to_date h (index st) c"
  then show "map_of (index (apply_document embedder parser h d st)) (chunk_id c) =
      map_of (index st) (chunk_id c)"
    using apply_document_index [where parser = parser and d = d and sections = sections and c = c
        and embedder = embedder and h = h and st = st, OF assms(2)]
    by simp
next
  fix i :: chunk_key
  assume "fst i \<noteq> doc_id d"
  with assms(1) show "map_of (index (apply_document embedder parser h d st)) i = map_of (index st) i"
    by (rule apply_document_index_other)
qed

theorem reindexing_is_incremental_witness:
  "to_embed identity_hash (index store_a)
     (chunks_of doc_a_edited [(''Intro'', ''Intro: hello''), (''Scaling'', ''Scaling: shards'')]) =
     [\<lparr> chunk_id = ((''a.md'', ''qdrant''), 0), chunk_text = ''Intro: hello'', chunk_title = ''Intro'',
        chunk_technology = ''qdrant'', chunk_category = ''guides'', chunk_position = 0 \<rparr>]
   \<and> map_of (index (apply_document length_embedder line_parser identity_hash doc_a_edited store_a))
        ((''a.md'', ''qdrant''), 1) =
       Some \<lparr> vector = [15], dimensionality = 1, content_hash = ''Scaling: shards'' \<rparr>
   \<and> map_of (index (apply_document length_embedder line_parser identity_hash doc_a_edited store_a))
        ((''b.md'', ''milvus''), 0) = None"
proof -
  let ?c0 = "\<lparr> chunk_id = ((''a.md'', ''qdrant''), 0), chunk_text = ''Intro: hello'',
    chunk_title = ''Intro'', chunk_technology = ''qdrant'', chunk_category = ''guides'',
    chunk_position = 0 \<rparr>"
  let ?c1 = "\<lparr> chunk_id = ((''a.md'', ''qdrant''), 1), chunk_text = ''Scaling: shards'',
    chunk_title = ''Scaling'', chunk_technology = ''qdrant'', chunk_category = ''guides'',
    chunk_position = 1 \<rparr>"
  let ?after = "apply_document length_embedder line_parser identity_hash doc_a_edited store_a"
  have cs: "chunks_of doc_a_edited [(''Intro'', ''Intro: hello''), (''Scaling'', ''Scaling: shards'')] =
      [?c0, ?c1]"
    by (rule chunks_doc_a_edited)
  have stale: "to_embed identity_hash (index store_a)
      (chunks_of doc_a_edited [(''Intro'', ''Intro: hello''), (''Scaling'', ''Scaling: shards'')]) = [?c0]"
    unfolding cs by (rule stale_doc_a_edited)
  have d: "doc_id doc_a_edited = (''a.md'', ''qdrant'')"
    by (simp add: doc_id_def doc_a_edited_def doc_a_def)
  have old1: "map_of (index store_a) ((''a.md'', ''qdrant''), 1) =
      Some \<lparr> vector = [15], dimensionality = 1, content_hash = ''Scaling: shards'' \<rparr>"
    by (simp add: store_a_value)
  have old2: "map_of (index store_a) ((''b.md'', ''milvus''), 0) = None"
    by (simp add: store_a_value)
  have fresh: "up_to_date identity_hash (index store_a) ?c1"
    by (simp add: store_a_value up_to_date_def identity_hash_def)
  note incremental = reindexing_is_incremental [where parser = line_parser and d = doc_a_edited
      and h = identity_hash and embedder = length_embedder and embedder' = length_embedder,
      OF well_formed_store_a parse_doc_a_edited]
  from incremental have keep: "\<forall>c \<in> set [?c0, ?c1]. up_to_date identity_hash (index store_a) c \<longrightarrow>
      map_of (index ?after) (chunk_id c) = map_of (index store_a) (chunk_id c)"
    unfolding cs by blast
  from incremental have other: "\<forall>i :: chunk_key. fst i \<noteq> doc_id doc_a_edited \<longrightarrow>
      map_of (index ?after) i = map_of (index store_a) i"
    by blast
  from keep fresh have "map_of (index ?after) (chunk_id ?c1) = map_of (index store_a) (chunk_id ?c1)"
    by simp
  then have kept: "map_of (index ?after) ((''a.md'', ''qdrant''), 1) =
      Some \<lparr> vector = [15], dimensionality = 1, content_hash = ''Scaling: shards'' \<rparr>"
    using old1 by simp
  have "fst ((''b.md'', ''milvus''), 0 :: nat) \<noteq> doc_id doc_a_edited" by (simp add: d)
  with other have "map_of (index ?after) ((''b.md'', ''milvus''), 0) =
      map_of (index store_a) ((''b.md'', ''milvus''), 0)"
    by blast
  then have untouched: "map_of (index ?after) ((''b.md'', ''milvus''), 0) = None"
    using old2 by simp
  show ?thesis
    using stale kept untouched by (intro conjI)
qed




end
